theory Spec2Isabelle
  imports Main "HOL-Library.Sublist" "HOL-Library.Multiset"
begin

section \<open>Constants of cli/configssh.go\<close>

definition nl :: char where
  "nl = CHR 0x0A"

definition tab :: char where
  "tab = CHR 0x09"

definition sshStartToken :: string where
  "sshStartToken = ''# ------------START-CODER-----------''"

definition sshStartMessage :: string where
  \<open>sshStartMessage =
     ''# This was generated by "coder config-ssh".'' @ [nl] @
     ''#'' @ [nl] @
     ''# To remove this blob, run:'' @ [nl] @
     ''#'' @ [nl] @
     ''#    coder config-ssh --remove'' @ [nl] @
     ''#'' @ [nl] @
     ''# You should not hand-edit this section, unless you are deleting it.''\<close>

definition sshEndToken :: string where
  "sshEndToken = ''# ------------END-CODER------------''"

section \<open>Go string primitives\<close>

text \<open>
  A Go string is a sequence of bytes, here a \<open>char list\<close>. A run-time panic and a
  returned \<open>error\<close> value are both results of type \<open>error\<close>.
\<close>

datatype error = Panic string | Error string

text \<open>\<open>strings.HasPrefix(s, p)\<close>.\<close>

fun HasPrefix :: "string \<Rightarrow> string \<Rightarrow> bool" where
  "HasPrefix s [] = True"
| "HasPrefix [] (p # ps) = False"
| "HasPrefix (c # cs) (p # ps) = (c = p \<and> HasPrefix cs ps)"

text \<open>
  \<open>strings.Index(s, sub)\<close>: the byte offset of the first occurrence of \<open>sub\<close> in
  \<open>s\<close>, or \<open>-1\<close> when there is none.
\<close>

fun Index :: "string \<Rightarrow> string \<Rightarrow> int" where
  "Index [] sub = (if sub = [] then 0 else -1)"
| "Index (c # cs) sub =
     (if HasPrefix (c # cs) sub then 0
      else (let r = Index cs sub in if r = -1 then -1 else r + 1))"

text \<open>
  The slice expressions \<open>s[:i]\<close> and \<open>s[j:]\<close>. Go panics when the bound is negative
  or exceeds \<open>len(s)\<close>.
\<close>

definition slice_to :: "string \<Rightarrow> int \<Rightarrow> error + string" where
  "slice_to s i =
     (if 0 \<le> i \<and> i \<le> int (length s) then Inr (take (nat i) s)
      else Inl (Panic ''slice bounds out of range''))"

definition slice_from :: "string \<Rightarrow> int \<Rightarrow> error + string" where
  "slice_from s j =
     (if 0 \<le> j \<and> j \<le> int (length s) then Inr (drop (nat j) s)
      else Inl (Panic ''slice bounds out of range''))"

text \<open>\<open>strings.Join(elems, sep)\<close>.\<close>

fun Join :: "string list \<Rightarrow> string \<Rightarrow> string" where
  "Join [] sep = []"
| "Join [x] sep = x"
| "Join (x # y # ys) sep = x @ sep @ Join (y # ys) sep"

section \<open>Config block locator (configSSH, lines 56 to 60)\<close>

definition exciseBlock :: "string \<Rightarrow> error + string" where
  "exciseBlock sshConfigContent =
     (let startIndex = Index sshConfigContent sshStartToken;
          endIndex = Index sshConfigContent sshEndToken
      in if startIndex \<noteq> -1 \<and> endIndex \<noteq> -1
         then (case slice_to sshConfigContent (startIndex - 1) of
                 Inl e \<Rightarrow> Inl e
               | Inr kept_head \<Rightarrow>
                   (case slice_from sshConfigContent (endIndex + int (length sshEndToken)) of
                      Inl e \<Rightarrow> Inl e
                    | Inr kept_tail \<Rightarrow> Inr (kept_head @ kept_tail)))
         else Inr sshConfigContent)"


section \<open>Data model (codersdk, database)\<close>

text \<open>
  Modelled from the spec: the declarations of \<open>database.WorkspaceTransition\<close>,
  \<open>codersdk.WorkspaceAgent\<close>, \<open>codersdk.WorkspaceResource\<close> and
  \<open>codersdk.Workspace\<close> are not among the sources. Section 3 of the specification
  gives a resource a transition and an ordered collection of agents, an agent a name,
  and a workspace a name and its latest build; section 8 writes the transitions as
  \<open>start\<close> and \<open>stop\<close>. Only the fields that \<open>configSSH\<close> reads are kept.
\<close>

type_synonym WorkspaceTransition = string

definition WorkspaceTransitionStart :: WorkspaceTransition where
  "WorkspaceTransitionStart = ''start''"

definition WorkspaceTransitionStop :: WorkspaceTransition where
  "WorkspaceTransitionStop = ''stop''"

record agent =
  agent_Name :: string

record resource =
  Transition :: WorkspaceTransition
  Agents :: "agent list"

text \<open>\<open>LatestBuild.TemplateVersionID\<close> is flattened into one field.\<close>

record workspace =
  Name :: string
  LatestBuild_TemplateVersionID :: string

section \<open>Stanza generator (configSSH, lines 86 to 118)\<close>

text \<open>Lines 92 to 95: the host name of one agent of a resource.\<close>

definition hostname_of :: "workspace \<Rightarrow> resource \<Rightarrow> agent \<Rightarrow> string" where
  "hostname_of ws res ag =
     (let hostname = Name ws
      in if length (Agents res) > 1 then hostname @ ''.'' @ agent_Name ag else hostname)"

text \<open>
  Line 114. \<open>fmt.Sprintf\<close>'s verb \<open>%q\<close> is Go library code; it is the
  parameter \<open>q\<close> of the generator.
\<close>

definition ProxyCommand_line :: "(string \<Rightarrow> string) \<Rightarrow> string \<Rightarrow> string \<Rightarrow> string \<Rightarrow> string" where
  "ProxyCommand_line q binaryFile root hostname =
     tab # ''ProxyCommand '' @ q binaryFile @ '' --global-config '' @ q root
       @ '' ssh --stdio '' @ hostname"

text \<open>
  \<open>strconv.Quote\<close>, which is what \<open>%q\<close> prints, on a string of ASCII bytes. A
  byte from \<open>0x80\<close> on is rendered as Go renders a byte that is not valid UTF-8; a
  valid multi-byte sequence is outside this definition. It instantiates \<open>q\<close> in
  the concrete runs below, whose paths are ASCII.
\<close>

definition hex_digit :: "nat \<Rightarrow> char" where
  "hex_digit n = ''0123456789abcdef'' ! (n mod 16)"

definition quote_byte :: "char \<Rightarrow> string" where
  "quote_byte c =
     (let n = (of_char c :: nat)
      in if c = CHR 0x22 then [CHR 0x5C, CHR 0x22]
         else if c = CHR 0x5C then [CHR 0x5C, CHR 0x5C]
         else if 0x20 \<le> n \<and> n < 0x7F then [c]
         else if n = 0x07 then [CHR 0x5C, CHR ''a'']
         else if n = 0x08 then [CHR 0x5C, CHR ''b'']
         else if n = 0x0C then [CHR 0x5C, CHR ''f'']
         else if n = 0x0A then [CHR 0x5C, CHR ''n'']
         else if n = 0x0D then [CHR 0x5C, CHR ''r'']
         else if n = 0x09 then [CHR 0x5C, CHR ''t'']
         else if n = 0x0B then [CHR 0x5C, CHR ''v'']
         else [CHR 0x5C, CHR ''x'', hex_digit (n div 16), hex_digit (n mod 16)])"

definition Quote :: "string \<Rightarrow> string" where
  "Quote s = CHR 0x22 # concat (map quote_byte s) @ [CHR 0x22]"

text \<open>Lines 96 to 115: the lines of one stanza, built by successive appends.\<close>

definition configOptions ::
  "(string \<Rightarrow> string) \<Rightarrow> string list \<Rightarrow> bool \<Rightarrow> string \<Rightarrow> string \<Rightarrow> string \<Rightarrow> string list" where
  "configOptions q sshOptions skipProxyCommand binaryFile root hostname =
     (let opts0 = [''Host coder.'' @ hostname];
          opts1 = foldl (\<lambda>acc option. acc @ [tab # option]) opts0 sshOptions;
          opts2 = opts1 @
            [tab # ''HostName coder.'' @ hostname,
             tab # ''ConnectTimeout=0'',
             tab # ''StrictHostKeyChecking=no'',
             tab # ''UserKnownHostsFile=/dev/null'',
             tab # ''LogLevel ERROR'']
      in if \<not> skipProxyCommand
         then opts2 @ [ProxyCommand_line q binaryFile root hostname]
         else opts2)"

text \<open>Line 116: the text one agent appends to the shared buffer.\<close>

definition stanza ::
  "(string \<Rightarrow> string) \<Rightarrow> string list \<Rightarrow> bool \<Rightarrow> string \<Rightarrow> string \<Rightarrow> string \<Rightarrow> string" where
  "stanza q sshOptions skipProxyCommand binaryFile root hostname =
     Join (configOptions q sshOptions skipProxyCommand binaryFile root hostname) [nl] @ [nl]"

text \<open>
  Lines 86 to 90: the two nested loops. A resource whose transition is not
  \<open>start\<close> is skipped; every agent of a remaining resource gets a host name.
\<close>

definition resource_hostnames :: "workspace \<Rightarrow> resource \<Rightarrow> string list" where
  "resource_hostnames ws res =
     (if Transition res \<noteq> WorkspaceTransitionStart then []
      else map (\<lambda>ag. hostname_of ws res ag) (Agents res))"

definition workspace_hostnames :: "workspace \<Rightarrow> resource list \<Rightarrow> string list" where
  "workspace_hostnames ws resources = concat (map (resource_hostnames ws) resources)"

text \<open>The stanzas one workspace's goroutine appends, in its own order.\<close>

definition workspace_stanzas ::
  "(string \<Rightarrow> string) \<Rightarrow> string list \<Rightarrow> bool \<Rightarrow> string \<Rightarrow> string \<Rightarrow> workspace \<Rightarrow> resource list
     \<Rightarrow> string list" where
  "workspace_stanzas q sshOptions skipProxyCommand binaryFile root ws resources =
     map (stanza q sshOptions skipProxyCommand binaryFile root) (workspace_hostnames ws resources)"

text \<open>The alias announced by the \<open>Host\<close> line of a stanza.\<close>

definition host_alias :: "string \<Rightarrow> string" where
  "host_alias hostname = ''coder.'' @ hostname"


text \<open>
  The lines of a rendered text, as \<open>strings.Split(text, "\n")\<close> gives them, and
  the number of them that set \<open>ProxyCommand\<close>.
\<close>




text \<open>
  Start resources with exactly one agent, start resources with several agents, and
  the agent names of the latter, in list order.
\<close>

definition single_agent_start :: "resource \<Rightarrow> bool" where
  "single_agent_start res =
     (Transition res = WorkspaceTransitionStart \<and> length (Agents res) = 1)"

definition multi_agent_start :: "resource \<Rightarrow> bool" where
  "multi_agent_start res =
     (Transition res = WorkspaceTransitionStart \<and> length (Agents res) > 1)"

definition multi_agent_names :: "resource list \<Rightarrow> string list" where
  "multi_agent_names resources =
     concat (map (\<lambda>res. map agent_Name (Agents res)) (filter multi_agent_start resources))"

section \<open>Concurrent aggregator (configSSH, lines 77 to 126)\<close>

text \<open>
  Each goroutine appends its stanzas one at a time under the mutex, so the buffer
  receives an interleaving of the per-workspace stanza lists. The interleaving is
  fixed by a schedule: the list of goroutine numbers in the order in which they win
  the mutex. An entry naming a goroutine with nothing left to append is passed
  over, and when the schedule is used up the remaining goroutines run one after
  the other.
\<close>

fun interleave :: "nat list \<Rightarrow> 'a list list \<Rightarrow> 'a list" where
  "interleave [] tasks = concat tasks"
| "interleave (i # sched) tasks =
     (if i < length tasks \<and> tasks ! i \<noteq> []
      then hd (tasks ! i) # interleave sched (tasks[i := tl (tasks ! i)])
      else interleave sched tasks)"

text \<open>
  The first failed fetch in list order, or all fetched resource lists.
  (\<open>errgroup\<close> reports the failure that happened first in time;
  which one that is does not matter below.)
\<close>

fun fetch_all :: "(string \<Rightarrow> error + resource list) \<Rightarrow> workspace list \<Rightarrow> error + resource list list" where
  "fetch_all fetch [] = Inr []"
| "fetch_all fetch (ws # rest) =
     (case fetch (LatestBuild_TemplateVersionID ws) of
        Inl e \<Rightarrow> Inl e
      | Inr resources \<Rightarrow>
          (case fetch_all fetch rest of
             Inl e \<Rightarrow> Inl e
           | Inr others \<Rightarrow> Inr (resources # others)))"

text \<open>
  The host names of a whole run, for the workspaces paired with their fetched
  resources, in list order.
\<close>

definition run_hostnames :: "(workspace \<times> resource list) list \<Rightarrow> string list" where
  "run_hostnames fetched =
     concat (map (\<lambda>(ws, resources). workspace_hostnames ws resources) fetched)"

section \<open>The command (configSSH, lines 40 to 140)\<close>

text \<open>
  Everything the command obtains from outside: the flags, the results of the calls
  to the client, the executable lookup, the configuration root, the quoting verb,
  the schedule of the goroutines, and whether the two file-system writes fail.
  \<open>sshConfigFile\<close> is the path after the expansion of \<open>~/\<close>, and
  \<open>sshConfigDir\<close> is \<open>filepath.Dir\<close> of it.
\<close>

record world =
  createClient_err :: "error option"
  currentOrganization_err :: "error option"
  sshConfigFile :: string
  sshConfigDir :: string
  sshOptions :: "string list"
  skipProxyCommand :: bool
  WorkspacesByOwner :: "error + workspace list"
  TemplateVersionResources :: "string \<Rightarrow> error + resource list"
  currentBinPath :: "error + string"
  createConfig :: string
  quote :: "string \<Rightarrow> string"
  schedule :: "nat list"
  MkdirAll_err :: "error option"
  WriteFile_err :: "error option"

record filesystem =
  files :: "string \<rightharpoonup> string"
  dirs :: "string set"

text \<open>Line 54: a file that cannot be read counts as empty.\<close>

definition ReadFile :: "filesystem \<Rightarrow> string \<Rightarrow> string" where
  "ReadFile fs path = (case files fs path of None \<Rightarrow> [] | Some content \<Rightarrow> content)"

text \<open>Lines 76 to 127: the text appended after the excised content.\<close>

definition block_header :: string where
  "block_header = [nl] @ sshStartToken @ [nl] @ sshStartMessage @ [nl, nl]"

definition block_footer :: string where
  "block_footer = [nl] @ sshEndToken"

text \<open>Lines 79 to 126: the stanza text in the buffer once every goroutine is done.\<close>

definition errGroup :: "world \<Rightarrow> workspace list \<Rightarrow> string \<Rightarrow> string \<Rightarrow> error + string" where
  "errGroup w workspaces binaryFile root =
     (case fetch_all (TemplateVersionResources w) workspaces of
        Inl e \<Rightarrow> Inl e
      | Inr fetched \<Rightarrow>
          Inr (concat (interleave (schedule w)
            (map (\<lambda>(ws, resources).
                    workspace_stanzas (quote w) (sshOptions w) (skipProxyCommand w)
                      binaryFile root ws resources)
                 (zip workspaces fetched)))))"

text \<open>
  The command returns its error (or none) and the file system it leaves behind.
  A failing \<open>os.WriteFile\<close> is taken to write nothing.
\<close>

definition configSSH :: "world \<Rightarrow> filesystem \<Rightarrow> error option \<times> filesystem" where
  "configSSH w fs =
     (case createClient_err w of Some e \<Rightarrow> (Some e, fs) | None \<Rightarrow>
      (case currentOrganization_err w of Some e \<Rightarrow> (Some e, fs) | None \<Rightarrow>
       (case exciseBlock (ReadFile fs (sshConfigFile w)) of Inl e \<Rightarrow> (Some e, fs)
        | Inr sshConfigContent \<Rightarrow>
        (case WorkspacesByOwner w of Inl e \<Rightarrow> (Some e, fs) | Inr workspaces \<Rightarrow>
         if length workspaces = 0
         then (Some (Error ''You don't have any workspaces!''), fs)
         else
          (case currentBinPath w of Inl e \<Rightarrow> (Some e, fs) | Inr binaryFile \<Rightarrow>
           (case errGroup w workspaces binaryFile (createConfig w) of Inl e \<Rightarrow> (Some e, fs)
            | Inr stanzas \<Rightarrow>
            (case MkdirAll_err w of Some e \<Rightarrow> (Some e, fs) | None \<Rightarrow>
             (case WriteFile_err w of
                Some e \<Rightarrow> (Some e, fs\<lparr>dirs := insert (sshConfigDir w) (dirs fs)\<rparr>)
              | None \<Rightarrow>
                  (None, fs\<lparr>dirs := insert (sshConfigDir w) (dirs fs),
                             files := (files fs)(sshConfigFile w \<mapsto>
                               sshConfigContent @ block_header @ stanzas @ block_footer)\<rparr>)))))))))"

text \<open>
  The run of section 8 of the specification: one workspace \<open>dev\<close> whose template
  version has one start resource with the single agent \<open>main\<close>.
\<close>

definition dev_world :: world where
  "dev_world =
     \<lparr>createClient_err = None,
      currentOrganization_err = None,
      sshConfigFile = ''/home/u/.ssh/config'',
      sshConfigDir = ''/home/u/.ssh'',
      sshOptions = [''ForwardAgent yes''],
      skipProxyCommand = False,
      WorkspacesByOwner = Inr [\<lparr>Name = ''dev'', LatestBuild_TemplateVersionID = ''tv''\<rparr>],
      TemplateVersionResources =
        (\<lambda>id. Inr [\<lparr>Transition = WorkspaceTransitionStart, Agents = [\<lparr>agent_Name = ''main''\<rparr>]\<rparr>]),
      currentBinPath = Inr ''/usr/local/bin/coder'',
      createConfig = ''/home/u/.coder'',
      quote = Quote,
      schedule = [],
      MkdirAll_err = None,
      WriteFile_err = None\<rparr>"

text \<open>The stanza that run appends.\<close>

definition dev_stanza :: string where
  \<open>dev_stanza =
     ''Host coder.dev'' @ [nl] @
     tab # ''ForwardAgent yes'' @ [nl] @
     tab # ''HostName coder.dev'' @ [nl] @
     tab # ''ConnectTimeout=0'' @ [nl] @
     tab # ''StrictHostKeyChecking=no'' @ [nl] @
     tab # ''UserKnownHostsFile=/dev/null'' @ [nl] @
     tab # ''LogLevel ERROR'' @ [nl] @
     tab # ''ProxyCommand "/usr/local/bin/coder" --global-config "/home/u/.coder" ssh --stdio dev''
       @ [nl]\<close>

text \<open>A file system whose only file is the SSH config of that run.\<close>

definition fs_with_config :: "string \<Rightarrow> filesystem" where
  "fs_with_config content =
     \<lparr>files = Map.empty(''/home/u/.ssh/config'' \<mapsto> content), dirs = {}\<rparr>"

section \<open>Facts about the string primitives\<close>

lemma HasPrefix_iff_prefix: "HasPrefix s p \<longleftrightarrow> prefix p s"
  by (induction s p rule: HasPrefix.induct) auto

lemma Index_ge_minus_one: "- 1 \<le> Index s sub"
  by (induction s) (auto simp: Let_def)

lemma Index_minus_one_iff: "Index s sub = - 1 \<longleftrightarrow> \<not> sublist sub s"
proof (induction s)
  case Nil
  show ?case by simp
next
  case (Cons c cs)
  have "0 \<le> Index cs sub + 1"
    using Index_ge_minus_one [of cs sub] by simp
  with Cons show ?case
    by (auto simp: Let_def HasPrefix_iff_prefix sublist_Cons_right)
qed

lemma Index_found:
  "Index s sub = int n \<Longrightarrow> n \<le> length s \<and> prefix sub (drop n s)"
proof (induction s arbitrary: n)
  case Nil
  then show ?case by (auto split: if_splits)
next
  case (Cons c cs)
  show ?case
  proof (cases "HasPrefix (c # cs) sub")
    case True
    with Cons.prems show ?thesis by (simp add: HasPrefix_iff_prefix)
  next
    case False
    with Cons.prems have r: "Index cs sub \<noteq> - 1" "Index cs sub + 1 = int n"
      by (auto simp: Let_def split: if_splits)
    with Index_ge_minus_one [of cs sub] obtain m where m: "n = Suc m" "Index cs sub = int m"
      by (cases n) auto
    from Cons.IH [OF m(2)] m(1) show ?thesis by simp
  qed
qed

lemma Index_first:
  "Index s sub = int n \<Longrightarrow> m < n \<Longrightarrow> \<not> prefix sub (drop m s)"
proof (induction s arbitrary: n m)
  case Nil
  then show ?case by (auto split: if_splits)
next
  case (Cons c cs)
  show ?case
  proof (cases "HasPrefix (c # cs) sub")
    case True
    with Cons.prems show ?thesis by simp
  next
    case False
    with Cons.prems have r: "Index cs sub \<noteq> - 1" "Index cs sub + 1 = int n"
      by (auto simp: Let_def split: if_splits)
    with Index_ge_minus_one [of cs sub] obtain k where k: "n = Suc k" "Index cs sub = int k"
      by (cases n) auto
    show ?thesis
    proof (cases m)
      case 0
      with False show ?thesis by (simp add: HasPrefix_iff_prefix)
    next
      case (Suc j)
      with Cons.IH [OF k(2), of j] k(1) Cons.prems(2) show ?thesis by simp
    qed
  qed
qed

lemma Index_eqI:
  "prefix sub (drop n s) \<Longrightarrow> n \<le> length s \<Longrightarrow> (\<And>m. m < n \<Longrightarrow> \<not> prefix sub (drop m s))
     \<Longrightarrow> Index s sub = int n"
proof -
  assume p: "prefix sub (drop n s)" and n: "n \<le> length s"
    and first: "\<And>m. m < n \<Longrightarrow> \<not> prefix sub (drop m s)"
  from p have "sublist sub (drop n s)" by (rule prefix_imp_sublist)
  then have "sublist sub s"
    using sublist_drop sublist_order.order.trans by blast
  then have "Index s sub \<noteq> - 1" by (simp add: Index_minus_one_iff)
  with Index_ge_minus_one [of s sub] have "0 \<le> Index s sub" by arith
  then obtain k where k: "Index s sub = int k"
    by (auto elim: nonneg_int_cases)
  have "\<not> k < n" using Index_found [OF k] first by blast
  moreover have "\<not> n < k" using Index_first [OF k] p by blast
  ultimately show ?thesis using k by simp
qed

lemma Index_nat_cases:
  obtains "Index s sub = - 1" | n where "Index s sub = int n"
proof (cases "Index s sub = - 1")
  case True
  then show ?thesis by (rule that(1))
next
  case False
  with Index_ge_minus_one [of s sub] have "0 \<le> Index s sub" by arith
  then obtain k where "Index s sub = int k"
    by (auto elim: nonneg_int_cases)
  then show ?thesis by (rule that(2))
qed

lemma HasPrefix_Index_zero: "HasPrefix s sub \<Longrightarrow> Index s sub = 0"
  by (cases s) (auto split: if_splits elim: HasPrefix.elims)

lemma Index_end_bound:
  assumes "Index s sub = int n"
  shows "n + length sub \<le> length s"
proof -
  from Index_found [OF assms] have "n \<le> length s" "prefix sub (drop n s)" by simp_all
  then have "length sub \<le> length s - n"
    using prefix_length_le by fastforce
  with \<open>n \<le> length s\<close> show ?thesis by simp
qed

section \<open>The config block locator\<close>

lemma exciseBlock_absent:
  "Index s sshStartToken = - 1 \<or> Index s sshEndToken = - 1 \<Longrightarrow> exciseBlock s = Inr s"
  by (auto simp: exciseBlock_def)

lemma exciseBlock_present:
  assumes "Index s sshStartToken = int i" "Index s sshEndToken = int j" "1 \<le> i"
  shows "exciseBlock s = Inr (take (i - 1) s @ drop (j + length sshEndToken) s)"
proof -
  from Index_found [OF assms(1)] have i: "i \<le> length s" by simp
  from Index_end_bound [OF assms(2)] have j: "j + length sshEndToken \<le> length s" .
  have a: "slice_to s (int i - 1) = Inr (take (i - 1) s)"
    using i assms(3) by (simp add: slice_to_def nat_diff_distrib')
  have b: "slice_from s (int j + int (length sshEndToken)) = Inr (drop (j + length sshEndToken) s)"
    using j by (simp add: slice_from_def nat_add_distrib)
  show ?thesis
    using assms a b by (simp add: exciseBlock_def)
qed

lemma exciseBlock_offset_zero:
  assumes "Index s sshStartToken = 0" "Index s sshEndToken \<noteq> - 1"
  shows "exciseBlock s = Inl (Panic ''slice bounds out of range'')"
  using assms by (simp add: exciseBlock_def slice_to_def)

text \<open>
  Claim C3. A text that begins with the start marker and also holds the end marker
  makes the excision panic: the slice \<open>sshConfigContent[:startIndex-1]\<close> has the
  bound \<open>-1\<close>. When both markers occur the excision returns a text exactly when at
  least one character precedes the first start marker.
\<close>

theorem excise_panics_when_start_marker_at_offset_zero:
  "(HasPrefix s sshStartToken \<and> Index s sshEndToken \<noteq> - 1 \<longrightarrow>
      exciseBlock s = Inl (Panic ''slice bounds out of range''))
   \<and> (Index s sshStartToken \<noteq> - 1 \<and> Index s sshEndToken \<noteq> - 1 \<longrightarrow>
        (\<not> isl (exciseBlock s)) = (1 \<le> Index s sshStartToken))"
proof (intro conjI impI)
  assume "HasPrefix s sshStartToken \<and> Index s sshEndToken \<noteq> - 1"
  then show "exciseBlock s = Inl (Panic ''slice bounds out of range'')"
    by (simp add: HasPrefix_Index_zero exciseBlock_offset_zero)
next
  assume both: "Index s sshStartToken \<noteq> - 1 \<and> Index s sshEndToken \<noteq> - 1"
  obtain i where i: "Index s sshStartToken = int i"
    using both by (rule_tac s = s and sub = sshStartToken in Index_nat_cases) auto
  obtain j where j: "Index s sshEndToken = int j"
    using both by (rule_tac s = s and sub = sshEndToken in Index_nat_cases) auto
  show "(\<not> isl (exciseBlock s)) = (1 \<le> Index s sshStartToken)"
  proof (cases "i = 0")
    case True
    with i both have "exciseBlock s = Inl (Panic ''slice bounds out of range'')"
      by (simp add: exciseBlock_offset_zero)
    with True i show ?thesis by simp
  next
    case False
    then have "1 \<le> i" by simp
    from exciseBlock_present [OF i j this] i False show ?thesis by simp
  qed
qed

theorem excise_panics_when_start_marker_at_offset_zero_witness:
  "HasPrefix (sshStartToken @ [nl] @ sshEndToken) sshStartToken
   \<and> Index (sshStartToken @ [nl] @ sshEndToken) sshEndToken \<noteq> - 1
   \<and> exciseBlock (sshStartToken @ [nl] @ sshEndToken) = Inl (Panic ''slice bounds out of range'')
   \<and> Index (''a'' @ [nl] @ sshStartToken @ [nl] @ sshEndToken) sshStartToken \<noteq> - 1
   \<and> Index (''a'' @ [nl] @ sshStartToken @ [nl] @ sshEndToken) sshEndToken \<noteq> - 1
   \<and> 1 \<le> Index (''a'' @ [nl] @ sshStartToken @ [nl] @ sshEndToken) sshStartToken
   \<and> \<not> isl (exciseBlock (''a'' @ [nl] @ sshStartToken @ [nl] @ sshEndToken))"
proof -
  have h0: "HasPrefix (sshStartToken @ [nl] @ sshEndToken) sshStartToken
      \<and> Index (sshStartToken @ [nl] @ sshEndToken) sshEndToken \<noteq> - 1"
    by (simp add: sshStartToken_def sshEndToken_def nl_def)
  have h1: "Index (''a'' @ [nl] @ sshStartToken @ [nl] @ sshEndToken) sshStartToken \<noteq> - 1
      \<and> Index (''a'' @ [nl] @ sshStartToken @ [nl] @ sshEndToken) sshEndToken \<noteq> - 1
      \<and> 1 \<le> Index (''a'' @ [nl] @ sshStartToken @ [nl] @ sshEndToken) sshStartToken"
    by (simp add: sshStartToken_def sshEndToken_def nl_def)
  from excise_panics_when_start_marker_at_offset_zero [of "sshStartToken @ [nl] @ sshEndToken"] h0
  have "exciseBlock (sshStartToken @ [nl] @ sshEndToken) = Inl (Panic ''slice bounds out of range'')"
    by blast
  moreover
  from excise_panics_when_start_marker_at_offset_zero
    [of "''a'' @ [nl] @ sshStartToken @ [nl] @ sshEndToken"] h1
  have "\<not> isl (exciseBlock (''a'' @ [nl] @ sshStartToken @ [nl] @ sshEndToken))"
    by blast
  ultimately show ?thesis using h0 h1 by blast
qed

lemma occurrences_apart:
  assumes A: "prefix A (drop i s)" and B: "prefix B (drop j s)" and ij: "i < j"
    and B_ne: "B \<noteq> []" and hd: "hd B \<notin> set (tl A)"
  shows "i + length A \<le> j"
proof (rule ccontr)
  assume "\<not> i + length A \<le> j"
  then have d: "j - i < length A" "0 < j - i" using ij by simp_all
  from A obtain r1 where r1: "drop i s = A @ r1" by (auto simp: prefix_def)
  from B obtain r2 where r2: "drop j s = B @ r2" by (auto simp: prefix_def)
  have "drop j s = drop (j - i) (drop i s)" using ij by simp
  also have "\<dots> = drop (j - i) A @ r1" using d r1 by simp
  finally have "B @ r2 = drop (j - i) A @ r1" using r2 by simp
  moreover have "drop (j - i) A \<noteq> []" using d by simp
  ultimately have "hd B = hd (drop (j - i) A)" using B_ne
    by (metis hd_append2)
  also have "\<dots> = A ! (j - i)" using d by (simp add: hd_drop_conv_nth)
  also have "\<dots> = tl A ! (j - i - 1)" using d by (cases A) (auto simp: nth_Cons')
  also have "\<dots> \<in> set (tl A)" using d by (intro nth_mem) simp
  finally show False using hd by simp
qed

lemma start_token_shape: "sshStartToken \<noteq> []" "hd sshStartToken = CHR ''#''"
  "CHR ''#'' \<notin> set (tl sshStartToken)" "nl \<notin> set sshStartToken"
  "length sshStartToken = 36"
  by (simp_all add: sshStartToken_def nl_def)

lemma end_token_shape: "sshEndToken \<noteq> []" "hd sshEndToken = CHR ''#''"
  "CHR ''#'' \<notin> set (tl sshEndToken)" "nl \<notin> set sshEndToken"
  "length sshEndToken = 35"
  by (simp_all add: sshEndToken_def nl_def)

lemma managed_block_shape:
  assumes i: "Index s sshStartToken = int i" and j: "Index s sshEndToken = int j"
    and i1: "1 \<le> i" and ij: "i < j"
  shows "\<exists>c mid. s = take (i - 1) s @ (c # sshStartToken @ mid @ sshEndToken)
            @ drop (j + length sshEndToken) s"
proof -
  from Index_found [OF i] have il: "i \<le> length s" and pA: "prefix sshStartToken (drop i s)"
    by simp_all
  from Index_found [OF j] have pB: "prefix sshEndToken (drop j s)" by simp
  from pA obtain r1 where r1: "drop i s = sshStartToken @ r1" by (auto simp: prefix_def)
  from pB obtain r2 where r2: "drop j s = sshEndToken @ r2" by (auto simp: prefix_def)
  have apart: "i + length sshStartToken \<le> j"
    using occurrences_apart [OF pA pB ij] start_token_shape end_token_shape by simp
  define k where "k = j - (i + length sshStartToken)"
  have "drop j s = drop (j - i) (drop i s)" using ij by simp
  also have "\<dots> = drop k r1" using r1 apart by (simp add: k_def)
  finally have "drop k r1 = sshEndToken @ r2" using r2 by simp
  then have r1': "r1 = take k r1 @ sshEndToken @ r2"
    by (metis append_take_drop_id)
  have "drop (j + length sshEndToken) s = drop (length sshEndToken) (drop j s)"
    by (simp add: add.commute)
  then have tail: "drop (j + length sshEndToken) s = r2" using r2 by simp
  have "take i s = take (i - 1) s @ [s ! (i - 1)]"
    using i1 il by (metis Suc_diff_1 Suc_le_lessD less_le_trans take_Suc_conv_app_nth zero_less_one)
  then have "s = take (i - 1) s @ [s ! (i - 1)] @ drop i s"
    by (metis append_assoc append_take_drop_id)
  with r1 r1' tail
  have "s = take (i - 1) s @ (s ! (i - 1) # sshStartToken @ take k r1 @ sshEndToken)
             @ drop (j + length sshEndToken) s"
    by (metis append_Cons append_Nil append_assoc)
  then show ?thesis by blast
qed

lemma sublist_separator:
  assumes "c \<notin> set sub"
  shows "sublist sub (a @ c # b) \<longleftrightarrow> sublist sub a \<or> sublist sub b"
proof
  assume "sublist sub (a @ c # b)"
  then consider "sublist sub a" | "sublist sub (c # b)"
    | xs1 xs2 where "sub = xs1 @ xs2" "suffix xs1 a" "prefix xs2 (c # b)" "xs1 \<noteq> []" "xs2 \<noteq> []"
    by (auto simp: sublist_append) (metis append_Nil2 prefix_imp_sublist suffix_imp_sublist self_append_conv2)+
  then show "sublist sub a \<or> sublist sub b"
  proof cases
    case 1
    then show ?thesis by simp
  next
    case 2
    then show ?thesis using assms
      by (auto simp: sublist_Cons_right prefix_Cons)
  next
    case 3
    then have "c \<in> set xs2" by (cases xs2) (auto simp: prefix_Cons)
    with 3 assms show ?thesis by simp
  qed
next
  assume "sublist sub a \<or> sublist sub b"
  then show "sublist sub (a @ c # b)"
    by (auto simp: sublist_append sublist_Cons_right)
qed

lemma Index_first_occurrence:
  assumes absent: "Index u sub = - 1" and ne: "sub \<noteq> []" and hd: "hd sub \<notin> set (tl sub)"
  shows "Index (u @ sub @ v) sub = int (length u)"
proof (rule Index_eqI)
  show "prefix sub (drop (length u) (u @ sub @ v))" by simp
  show "length u \<le> length (u @ sub @ v)" by simp
  fix m assume m: "m < length u"
  show "\<not> prefix sub (drop m (u @ sub @ v))"
  proof
    assume p: "prefix sub (drop m (u @ sub @ v))"
    have "prefix sub (drop (length u) (u @ sub @ v))" by simp
    from occurrences_apart [OF p this m ne hd] have le: "m + length sub \<le> length u" .
    from p m have "prefix sub (drop m u @ sub @ v)" by simp
    moreover have "length sub \<le> length (drop m u)" using le by simp
    ultimately have "prefix sub (drop m u)"
      by (metis prefix_length_prefix prefix_def)
    then have "sublist sub u"
      using prefix_imp_sublist sublist_drop sublist_order.order.trans by blast
    with absent show False by (simp add: Index_minus_one_iff)
  qed
qed

text \<open>
  Claim C1, as amended. When either marker is absent the locator returns its input.
  When both occur, the first start marker is preceded by at least one character and
  lies before the first end marker, the input is \<open>before @ (c # start marker @ mid @
  end marker) @ after\<close> and the locator returns \<open>before @ after\<close>: the removed span
  runs from the character just before the start marker through the last character
  of the end marker, and the returned text resumes at the character right after the
  end marker.
\<close>

theorem excise_removes_block_when_start_precedes_end:
  "(Index s sshStartToken = - 1 \<or> Index s sshEndToken = - 1 \<longrightarrow> exciseBlock s = Inr s)
   \<and> (Index s sshStartToken = int i \<and> Index s sshEndToken = int j \<and> 1 \<le> i \<and> i < j \<longrightarrow>
        exciseBlock s = Inr (take (i - 1) s @ drop (j + length sshEndToken) s)
        \<and> (\<exists>c mid. s = take (i - 1) s @ (c # sshStartToken @ mid @ sshEndToken)
               @ drop (j + length sshEndToken) s))"
  using exciseBlock_absent [of s] exciseBlock_present [of s i j] managed_block_shape [of s i j]
  by blast

theorem excise_removes_block_when_start_precedes_end_witness:
  "Index ''Host x'' sshStartToken = - 1
   \<and> exciseBlock ''Host x'' = Inr ''Host x''
   \<and> Index (''ab'' @ [nl] @ sshStartToken @ ''xyz'' @ sshEndToken @ ''tail'') sshStartToken = int 3
   \<and> Index (''ab'' @ [nl] @ sshStartToken @ ''xyz'' @ sshEndToken @ ''tail'') sshEndToken = int 42
   \<and> (1::nat) \<le> 3 \<and> (3::nat) < 42
   \<and> exciseBlock (''ab'' @ [nl] @ sshStartToken @ ''xyz'' @ sshEndToken @ ''tail'') = Inr ''abtail''"
proof -
  have h0: "Index ''Host x'' sshStartToken = - 1"
    by (simp add: sshStartToken_def)
  have h1: "Index (''ab'' @ [nl] @ sshStartToken @ ''xyz'' @ sshEndToken @ ''tail'') sshStartToken = int 3
      \<and> Index (''ab'' @ [nl] @ sshStartToken @ ''xyz'' @ sshEndToken @ ''tail'') sshEndToken = int 42
      \<and> (1::nat) \<le> 3 \<and> (3::nat) < 42"
    by (simp add: sshStartToken_def sshEndToken_def nl_def)
  from excise_removes_block_when_start_precedes_end [of "''Host x''"] h0
  have r0: "exciseBlock ''Host x'' = Inr ''Host x''"
    by blast
  from excise_removes_block_when_start_precedes_end
    [of "''ab'' @ [nl] @ sshStartToken @ ''xyz'' @ sshEndToken @ ''tail''" 3 42] h1
  have "exciseBlock (''ab'' @ [nl] @ sshStartToken @ ''xyz'' @ sshEndToken @ ''tail'')
      = Inr (take (3 - 1) (''ab'' @ [nl] @ sshStartToken @ ''xyz'' @ sshEndToken @ ''tail'')
          @ drop (42 + length sshEndToken)
              (''ab'' @ [nl] @ sshStartToken @ ''xyz'' @ sshEndToken @ ''tail''))"
    by blast
  then have r1: "exciseBlock (''ab'' @ [nl] @ sshStartToken @ ''xyz'' @ sshEndToken @ ''tail'')
      = Inr ''abtail''"
    by (simp add: sshStartToken_def sshEndToken_def nl_def)
  from h0 h1 r0 r1 show ?thesis by blast
qed

text \<open>
  Claim C1 as stated fails when the end marker comes first: both markers occur, yet
  nothing is removed. The returned text is longer than the input, the part between
  the two cut points being kept twice.
\<close>

theorem excise_end_marker_first_counterexample:
  "Index (''a'' @ sshEndToken @ ''b'' @ [nl] @ sshStartToken @ ''c'') sshStartToken = 38
   \<and> Index (''a'' @ sshEndToken @ ''b'' @ [nl] @ sshStartToken @ ''c'') sshEndToken = 1
   \<and> exciseBlock (''a'' @ sshEndToken @ ''b'' @ [nl] @ sshStartToken @ ''c'')
       = Inr (''a'' @ sshEndToken @ ''b'' @ ''b'' @ [nl] @ sshStartToken @ ''c'')
   \<and> length (''a'' @ sshEndToken @ ''b'' @ [nl] @ sshStartToken @ ''c'')
       < length (''a'' @ sshEndToken @ ''b'' @ ''b'' @ [nl] @ sshStartToken @ ''c'')"
  by (simp add: sshStartToken_def sshEndToken_def nl_def exciseBlock_def slice_to_def slice_from_def)

lemma excise_single_block:
  assumes h1: "Index (pre @ [c]) sshStartToken = - 1"
    and h2: "Index (pre @ c # sshStartToken @ mid) sshEndToken = - 1"
  shows "exciseBlock (pre @ c # sshStartToken @ mid @ sshEndToken @ post) = Inr (pre @ post)"
proof -
  let ?s = "pre @ c # sshStartToken @ mid @ sshEndToken @ post"
  have "Index ((pre @ [c]) @ sshStartToken @ (mid @ sshEndToken @ post)) sshStartToken
      = int (length (pre @ [c]))"
    using h1 start_token_shape by (intro Index_first_occurrence) simp_all
  then have i: "Index ?s sshStartToken = int (length pre + 1)" by simp
  have "Index ((pre @ c # sshStartToken @ mid) @ sshEndToken @ post) sshEndToken
      = int (length (pre @ c # sshStartToken @ mid))"
    using h2 end_token_shape by (intro Index_first_occurrence) simp_all
  then have j: "Index ?s sshEndToken = int (length (pre @ c # sshStartToken @ mid))" by simp
  have "exciseBlock ?s = Inr (take (length pre + 1 - 1) ?s
      @ drop (length (pre @ c # sshStartToken @ mid) + length sshEndToken) ?s)"
    by (rule exciseBlock_present [OF i j]) simp
  then show ?thesis by simp
qed





section \<open>The stanza generator\<close>

lemma stop_is_not_start [simp]: "WorkspaceTransitionStop \<noteq> WorkspaceTransitionStart"
  by (simp add: WorkspaceTransitionStop_def WorkspaceTransitionStart_def)

lemma foldl_append_options:
  "foldl (\<lambda>acc option. acc @ [tab # option]) acc opts = acc @ map ((#) tab) opts"
  by (induction opts arbitrary: acc) simp_all

lemma configOptions_closed_form:
  "configOptions q opts skip binaryFile root hostname =
     [''Host coder.'' @ hostname] @ map ((#) tab) opts @
     [tab # ''HostName coder.'' @ hostname,
      tab # ''ConnectTimeout=0'',
      tab # ''StrictHostKeyChecking=no'',
      tab # ''UserKnownHostsFile=/dev/null'',
      tab # ''LogLevel ERROR''] @
     (if skip then []
      else [tab # ''ProxyCommand '' @ q binaryFile @ '' --global-config '' @ q root
              @ '' ssh --stdio '' @ hostname])"
  by (simp add: configOptions_def foldl_append_options ProxyCommand_line_def)




lemma Join_lines: "xs \<noteq> [] \<Longrightarrow> Join xs sep @ sep = concat (map (\<lambda>l. l @ sep) xs)"
  by (induction xs sep rule: Join.induct) simp_all





lemma stanza_text:
  "stanza q opts skip binaryFile root hostname =
     ''Host coder.'' @ hostname @ [nl] @
     concat (map (\<lambda>option. tab # option @ [nl]) opts) @
     tab # ''HostName coder.'' @ hostname @ [nl] @
     tab # ''ConnectTimeout=0'' @ [nl] @
     tab # ''StrictHostKeyChecking=no'' @ [nl] @
     tab # ''UserKnownHostsFile=/dev/null'' @ [nl] @
     tab # ''LogLevel ERROR'' @ [nl] @
     (if skip then []
      else tab # ''ProxyCommand '' @ q binaryFile @ '' --global-config '' @ q root
             @ '' ssh --stdio '' @ hostname @ [nl])"
proof -
  have "configOptions q opts skip binaryFile root hostname \<noteq> []"
    by (simp add: configOptions_closed_form)
  then have "stanza q opts skip binaryFile root hostname
      = concat (map (\<lambda>l. l @ [nl]) (configOptions q opts skip binaryFile root hostname))"
    unfolding stanza_def by (rule Join_lines)
  also have "\<dots> = ''Host coder.'' @ hostname @ [nl] @
     concat (map (\<lambda>option. tab # option @ [nl]) opts) @
     tab # ''HostName coder.'' @ hostname @ [nl] @
     tab # ''ConnectTimeout=0'' @ [nl] @
     tab # ''StrictHostKeyChecking=no'' @ [nl] @
     tab # ''UserKnownHostsFile=/dev/null'' @ [nl] @
     tab # ''LogLevel ERROR'' @ [nl] @
     (if skip then []
      else tab # ''ProxyCommand '' @ q binaryFile @ '' --global-config '' @ q root
             @ '' ssh --stdio '' @ hostname @ [nl])"
    by (simp add: configOptions_closed_form comp_def)
  finally show ?thesis .
qed

text \<open>
  Claim C6. The lines of every stanza are, in this order: the \<open>Host\<close> line, every
  extra option behind a tab, \<open>HostName\<close>, \<open>ConnectTimeout=0\<close>,
  \<open>StrictHostKeyChecking=no\<close>, \<open>UserKnownHostsFile=/dev/null\<close>, \<open>LogLevel ERROR\<close>
  and, unless suppressed, the \<open>ProxyCommand\<close> line; the rendered stanza is these
  lines, each followed by a newline. For workspace \<open>dev\<close> with one start resource
  holding the single agent \<open>main\<close>, the extra option \<open>ForwardAgent yes\<close>, the proxy
  line enabled, binary path \<open>/usr/local/bin/coder\<close> and config root
  \<open>/home/u/.coder\<close> (both printed by \<open>%q\<close> between double quotes), the workspace
  appends exactly one stanza, whose bytes are the eight lines of the claim.
\<close>

theorem stanza_lines_in_fixed_order:
  \<open>configOptions q opts skip binaryFile root hostname =
     [''Host coder.'' @ hostname] @ map ((#) tab) opts @
     [tab # ''HostName coder.'' @ hostname,
      tab # ''ConnectTimeout=0'',
      tab # ''StrictHostKeyChecking=no'',
      tab # ''UserKnownHostsFile=/dev/null'',
      tab # ''LogLevel ERROR''] @
     (if skip then []
      else [tab # ''ProxyCommand '' @ q binaryFile @ '' --global-config '' @ q root
              @ '' ssh --stdio '' @ hostname])
   \<and> stanza q opts skip binaryFile root hostname =
     ''Host coder.'' @ hostname @ [nl] @
     concat (map (\<lambda>option. tab # option @ [nl]) opts) @
     tab # ''HostName coder.'' @ hostname @ [nl] @
     tab # ''ConnectTimeout=0'' @ [nl] @
     tab # ''StrictHostKeyChecking=no'' @ [nl] @
     tab # ''UserKnownHostsFile=/dev/null'' @ [nl] @
     tab # ''LogLevel ERROR'' @ [nl] @
     (if skip then []
      else tab # ''ProxyCommand '' @ q binaryFile @ '' --global-config '' @ q root
             @ '' ssh --stdio '' @ hostname @ [nl])
   \<and> (q ''/usr/local/bin/coder'' = ''"/usr/local/bin/coder"''
      \<and> q ''/home/u/.coder'' = ''"/home/u/.coder"'' \<longrightarrow>
      workspace_stanzas q [''ForwardAgent yes''] False ''/usr/local/bin/coder'' ''/home/u/.coder''
        \<lparr>Name = ''dev'', LatestBuild_TemplateVersionID = tv\<rparr>
        [\<lparr>Transition = WorkspaceTransitionStart, Agents = [\<lparr>agent_Name = ''main''\<rparr>]\<rparr>]
      = [''Host coder.dev'' @ [nl] @
         tab # ''ForwardAgent yes'' @ [nl] @
         tab # ''HostName coder.dev'' @ [nl] @
         tab # ''ConnectTimeout=0'' @ [nl] @
         tab # ''StrictHostKeyChecking=no'' @ [nl] @
         tab # ''UserKnownHostsFile=/dev/null'' @ [nl] @
         tab # ''LogLevel ERROR'' @ [nl] @
         tab # ''ProxyCommand "/usr/local/bin/coder" --global-config "/home/u/.coder" ssh --stdio dev''
           @ [nl]])\<close>
proof (intro conjI impI)
  assume \<open>q ''/usr/local/bin/coder'' = ''"/usr/local/bin/coder"''
      \<and> q ''/home/u/.coder'' = ''"/home/u/.coder"''\<close>
  then show \<open>workspace_stanzas q [''ForwardAgent yes''] False ''/usr/local/bin/coder'' ''/home/u/.coder''
        \<lparr>Name = ''dev'', LatestBuild_TemplateVersionID = tv\<rparr>
        [\<lparr>Transition = WorkspaceTransitionStart, Agents = [\<lparr>agent_Name = ''main''\<rparr>]\<rparr>]
      = [''Host coder.dev'' @ [nl] @
         tab # ''ForwardAgent yes'' @ [nl] @
         tab # ''HostName coder.dev'' @ [nl] @
         tab # ''ConnectTimeout=0'' @ [nl] @
         tab # ''StrictHostKeyChecking=no'' @ [nl] @
         tab # ''UserKnownHostsFile=/dev/null'' @ [nl] @
         tab # ''LogLevel ERROR'' @ [nl] @
         tab # ''ProxyCommand "/usr/local/bin/coder" --global-config "/home/u/.coder" ssh --stdio dev''
           @ [nl]]\<close>
    by (simp add: workspace_stanzas_def workspace_hostnames_def resource_hostnames_def
        hostname_of_def stanza_def configOptions_def ProxyCommand_line_def)
qed (rule configOptions_closed_form, rule stanza_text)

theorem stanza_lines_in_fixed_order_witness:
  \<open>Quote ''/usr/local/bin/coder'' = ''"/usr/local/bin/coder"''
   \<and> Quote ''/home/u/.coder'' = ''"/home/u/.coder"''
   \<and> workspace_stanzas Quote [''ForwardAgent yes''] False ''/usr/local/bin/coder'' ''/home/u/.coder''
        \<lparr>Name = ''dev'', LatestBuild_TemplateVersionID = ''tv''\<rparr>
        [\<lparr>Transition = WorkspaceTransitionStart, Agents = [\<lparr>agent_Name = ''main''\<rparr>]\<rparr>]
      = [''Host coder.dev'' @ [nl] @
         tab # ''ForwardAgent yes'' @ [nl] @
         tab # ''HostName coder.dev'' @ [nl] @
         tab # ''ConnectTimeout=0'' @ [nl] @
         tab # ''StrictHostKeyChecking=no'' @ [nl] @
         tab # ''UserKnownHostsFile=/dev/null'' @ [nl] @
         tab # ''LogLevel ERROR'' @ [nl] @
         tab # ''ProxyCommand "/usr/local/bin/coder" --global-config "/home/u/.coder" ssh --stdio dev''
           @ [nl]]\<close>
proof -
  have h: \<open>Quote ''/usr/local/bin/coder'' = ''"/usr/local/bin/coder"''
      \<and> Quote ''/home/u/.coder'' = ''"/home/u/.coder"''\<close>
    by (simp add: Quote_def quote_byte_def)
  from stanza_lines_in_fixed_order [where q = Quote and tv = "''tv''"] h
  show ?thesis by blast
qed

text \<open>
  Claim C7. A start resource with exactly one agent yields the one alias
  \<open>coder.<workspace>\<close>; a start resource with more than one agent yields, for each
  agent, the alias \<open>coder.<workspace>.<agent>\<close>. The alias is what the \<open>Host\<close> line
  of the stanza announces.
\<close>

theorem alias_of_single_and_multi_agent_resource:
  "(Transition res = WorkspaceTransitionStart \<and> length (Agents res) = 1 \<longrightarrow>
      map host_alias (resource_hostnames ws res) = [''coder.'' @ Name ws])
   \<and> (Transition res = WorkspaceTransitionStart \<and> length (Agents res) > 1 \<longrightarrow>
      map host_alias (resource_hostnames ws res)
        = map (\<lambda>ag. ''coder.'' @ Name ws @ ''.'' @ agent_Name ag) (Agents res))
   \<and> hd (configOptions q opts skip binaryFile root hostname) = ''Host '' @ host_alias hostname"
  by (cases "Agents res")
     (auto simp: resource_hostnames_def hostname_of_def host_alias_def configOptions_closed_form)

theorem alias_of_single_and_multi_agent_resource_witness:
  "Transition \<lparr>Transition = WorkspaceTransitionStart, Agents = [\<lparr>agent_Name = ''main''\<rparr>]\<rparr> = WorkspaceTransitionStart
   \<and> length (Agents \<lparr>Transition = WorkspaceTransitionStart, Agents = [\<lparr>agent_Name = ''main''\<rparr>]\<rparr>) = 1
   \<and> map host_alias (resource_hostnames \<lparr>Name = ''w'', LatestBuild_TemplateVersionID = ''tv''\<rparr>
        \<lparr>Transition = WorkspaceTransitionStart, Agents = [\<lparr>agent_Name = ''main''\<rparr>]\<rparr>) = [''coder.w'']
   \<and> length (Agents \<lparr>Transition = WorkspaceTransitionStart,
        Agents = [\<lparr>agent_Name = ''a''\<rparr>, \<lparr>agent_Name = ''b''\<rparr>]\<rparr>) > 1
   \<and> map host_alias (resource_hostnames \<lparr>Name = ''w'', LatestBuild_TemplateVersionID = ''tv''\<rparr>
        \<lparr>Transition = WorkspaceTransitionStart, Agents = [\<lparr>agent_Name = ''a''\<rparr>, \<lparr>agent_Name = ''b''\<rparr>]\<rparr>)
       = [''coder.w.a'', ''coder.w.b'']"
  using alias_of_single_and_multi_agent_resource
      [where res = "\<lparr>Transition = WorkspaceTransitionStart, Agents = [\<lparr>agent_Name = ''main''\<rparr>]\<rparr>"
         and ws = "\<lparr>Name = ''w'', LatestBuild_TemplateVersionID = ''tv''\<rparr>"]
    alias_of_single_and_multi_agent_resource
      [where res = "\<lparr>Transition = WorkspaceTransitionStart, Agents = [\<lparr>agent_Name = ''a''\<rparr>, \<lparr>agent_Name = ''b''\<rparr>]\<rparr>"
         and ws = "\<lparr>Name = ''w'', LatestBuild_TemplateVersionID = ''tv''\<rparr>"]
  by simp

text \<open>
  Claim C9. A resource whose transition is not \<open>start\<close> gets no host name and no
  stanza, whatever its agents; inside a list of resources it contributes nothing.
\<close>

theorem no_stanza_for_non_start_resource:
  "Transition res \<noteq> WorkspaceTransitionStart \<longrightarrow>
     resource_hostnames ws res = []
     \<and> workspace_stanzas q opts skip binaryFile root ws [res] = []
     \<and> workspace_stanzas q opts skip binaryFile root ws (rs1 @ res # rs2)
         = workspace_stanzas q opts skip binaryFile root ws (rs1 @ rs2)"
  by (simp add: workspace_stanzas_def workspace_hostnames_def resource_hostnames_def)

theorem no_stanza_for_non_start_resource_witness:
  "Transition \<lparr>Transition = WorkspaceTransitionStop, Agents = [\<lparr>agent_Name = ''a''\<rparr>, \<lparr>agent_Name = ''b''\<rparr>]\<rparr> \<noteq> WorkspaceTransitionStart
   \<and> workspace_stanzas Quote [] False ''coder'' ''/home/u/.coder''
        \<lparr>Name = ''dev'', LatestBuild_TemplateVersionID = ''tv''\<rparr>
        [\<lparr>Transition = WorkspaceTransitionStop, Agents = [\<lparr>agent_Name = ''a''\<rparr>, \<lparr>agent_Name = ''b''\<rparr>]\<rparr>] = []"
  using no_stanza_for_non_start_resource
      [where res = "\<lparr>Transition = WorkspaceTransitionStop, Agents = [\<lparr>agent_Name = ''a''\<rparr>, \<lparr>agent_Name = ''b''\<rparr>]\<rparr>"
         and q = Quote and opts = "[]" and skip = False and binaryFile = "''coder''"
         and root = "''/home/u/.coder''"
         and ws = "\<lparr>Name = ''dev'', LatestBuild_TemplateVersionID = ''tv''\<rparr>"]
  by simp








section \<open>The aliases of a run\<close>

lemma mset_interleave: "mset (interleave sched tasks) = mset (concat tasks)"
proof (induction sched arbitrary: tasks)
  case Nil
  show ?case by simp
next
  case (Cons i sched)
  show ?case
  proof (cases "i < length tasks \<and> tasks ! i \<noteq> []")
    case False
    then show ?thesis using Cons.IH [of tasks] by auto
  next
    case True
    then obtain x xs where x: "tasks ! i = x # xs" by (cases "tasks ! i") auto
    from True have split: "tasks = take i tasks @ (x # xs) # drop (Suc i) tasks"
      using x by (metis id_take_nth_drop)
    have upd: "tasks[i := xs] = take i tasks @ xs # drop (Suc i) tasks"
      using True by (simp add: upd_conv_take_nth_drop)
    have "mset (concat tasks) = mset (concat (take i tasks @ (x # xs) # drop (Suc i) tasks))"
      using split by simp
    also have "\<dots> = add_mset x (mset (concat (tasks[i := xs])))"
      by (simp add: upd)
    finally show ?thesis using True x Cons.IH [of "tasks[i := xs]"] by simp
  qed
qed

lemma run_stanzas_eq:
  "concat (map (\<lambda>(ws, resources). workspace_stanzas q opts skip binaryFile root ws resources) fetched)
     = map (stanza q opts skip binaryFile root) (run_hostnames fetched)"
  by (induction fetched) (auto simp: run_hostnames_def workspace_stanzas_def)

lemma resource_hostnames_single:
  "single_agent_start r \<Longrightarrow> resource_hostnames ws r = [Name ws]"
  by (cases "Agents r") (auto simp: single_agent_start_def resource_hostnames_def hostname_of_def)

lemma resource_hostnames_multi:
  "multi_agent_start r \<Longrightarrow>
     resource_hostnames ws r = map (\<lambda>n. Name ws @ CHR ''.'' # n) (map agent_Name (Agents r))"
  by (auto simp: multi_agent_start_def resource_hostnames_def hostname_of_def Let_def)

lemma resource_hostnames_none:
  "\<not> single_agent_start r \<Longrightarrow> \<not> multi_agent_start r \<Longrightarrow> resource_hostnames ws r = []"
  by (cases "Agents r")
     (auto simp: single_agent_start_def multi_agent_start_def resource_hostnames_def)

lemma single_not_multi: "single_agent_start r \<Longrightarrow> \<not> multi_agent_start r"
  by (simp add: single_agent_start_def multi_agent_start_def)

lemma workspace_hostnames_Cons:
  "workspace_hostnames ws (r # rs) = resource_hostnames ws r @ workspace_hostnames ws rs"
  by (simp add: workspace_hostnames_def)

lemma multi_agent_names_Cons:
  "multi_agent_start r \<Longrightarrow>
     multi_agent_names (r # rs) = map agent_Name (Agents r) @ multi_agent_names rs"
  "\<not> multi_agent_start r \<Longrightarrow> multi_agent_names (r # rs) = multi_agent_names rs"
  by (simp_all add: multi_agent_names_def)

lemma set_workspace_hostnames:
  "set (workspace_hostnames ws rs) =
     (if filter single_agent_start rs = [] then {} else {Name ws})
     \<union> (\<lambda>n. Name ws @ CHR ''.'' # n) ` set (multi_agent_names rs)"
proof (induction rs)
  case Nil
  show ?case by (simp add: workspace_hostnames_def multi_agent_names_def)
next
  case (Cons r rs)
  consider "single_agent_start r" | "multi_agent_start r"
    | "\<not> single_agent_start r" "\<not> multi_agent_start r" by blast
  then show ?case
  proof cases
    case 1
    with Cons single_not_multi [OF 1] show ?thesis
      by (simp add: workspace_hostnames_Cons resource_hostnames_single multi_agent_names_Cons)
  next
    case 2
    then have "\<not> single_agent_start r" using single_not_multi by blast
    with Cons 2 show ?thesis
      by (simp add: workspace_hostnames_Cons resource_hostnames_multi multi_agent_names_Cons
          image_Un image_image Un_ac)
  next
    case 3
    with Cons show ?thesis
      by (simp add: workspace_hostnames_Cons resource_hostnames_none multi_agent_names_Cons)
  qed
qed

lemma distinct_workspace_hostnames_iff:
  "distinct (workspace_hostnames ws rs) \<longleftrightarrow>
     length (filter single_agent_start rs) \<le> 1 \<and> distinct (multi_agent_names rs)"
proof (induction rs)
  case Nil
  show ?case by (simp add: workspace_hostnames_def multi_agent_names_def)
next
  case (Cons r rs)
  have inj: "inj_on (\<lambda>n. Name ws @ CHR ''.'' # n) A" for A
    by (rule inj_onI) simp
  consider "single_agent_start r" | "multi_agent_start r"
    | "\<not> single_agent_start r" "\<not> multi_agent_start r" by blast
  then show ?case
  proof cases
    case 1
    have "Name ws \<in> set (workspace_hostnames ws rs) \<longleftrightarrow> filter single_agent_start rs \<noteq> []"
      by (auto simp: set_workspace_hostnames)
    with Cons 1 single_not_multi [OF 1] show ?thesis
      by (auto simp: workspace_hostnames_Cons resource_hostnames_single multi_agent_names_Cons)
  next
    case 2
    then have nm: "\<not> single_agent_start r" using single_not_multi by blast
    have names: "multi_agent_names (r # rs) = map agent_Name (Agents r) @ multi_agent_names rs"
      using 2 by (simp add: multi_agent_names_Cons)
    have d: "distinct (map (\<lambda>n. Name ws @ CHR ''.'' # n) (map agent_Name (Agents r)))
        = distinct (map agent_Name (Agents r))"
      using inj by (simp only: distinct_map) simp
    have disj: "set (map (\<lambda>n. Name ws @ CHR ''.'' # n) (map agent_Name (Agents r)))
          \<inter> set (workspace_hostnames ws rs) = {}
        \<longleftrightarrow> set (map agent_Name (Agents r)) \<inter> set (multi_agent_names rs) = {}"
      by (auto simp: set_workspace_hostnames)
    from Cons 2 nm d disj show ?thesis
      unfolding workspace_hostnames_Cons resource_hostnames_multi [OF 2] names
      by (simp only: distinct_append filter.simps if_False) blast
  next
    case 3
    with Cons show ?thesis
      by (auto simp: workspace_hostnames_Cons resource_hostnames_none multi_agent_names_Cons)
  qed
qed

lemma hostname_forms:
  assumes "h \<in> set (workspace_hostnames ws rs)"
  shows "\<exists>t. h = Name ws @ t \<and> (t = [] \<or> hd t = CHR ''.'')"
  using assms by (auto simp: set_workspace_hostnames split: if_splits)

lemma hostnames_of_two_workspaces:
  assumes h1: "h \<in> set (workspace_hostnames ws1 rs1)"
    and h2: "h \<in> set (workspace_hostnames ws2 rs2)"
    and ne: "Name ws1 \<noteq> Name ws2"
  shows "HasPrefix (Name ws1) (Name ws2 @ ''.'') \<or> HasPrefix (Name ws2) (Name ws1 @ ''.'')"
proof -
  from hostname_forms [OF h1] obtain t1 where t1: "h = Name ws1 @ t1" "t1 = [] \<or> hd t1 = CHR ''.''"
    by blast
  from hostname_forms [OF h2] obtain t2 where t2: "h = Name ws2 @ t2" "t2 = [] \<or> hd t2 = CHR ''.''"
    by blast
  from t1(1) t2(1) have "Name ws1 @ t1 = Name ws2 @ t2" by simp
  then obtain us where us: "Name ws1 = Name ws2 @ us \<and> us @ t1 = t2
      \<or> Name ws1 @ us = Name ws2 \<and> t1 = us @ t2"
    by (auto simp: append_eq_append_conv2)
  from us ne have "us \<noteq> []" by auto
  from us show ?thesis
  proof
    assume a: "Name ws1 = Name ws2 @ us \<and> us @ t1 = t2"
    with \<open>us \<noteq> []\<close> t2(2) have "hd us = CHR ''.''" by (cases us) auto
    with \<open>us \<noteq> []\<close> obtain r where "us = CHR ''.'' # r" by (cases us) auto
    with a have "Name ws1 = (Name ws2 @ ''.'') @ r" by simp
    then have "prefix (Name ws2 @ ''.'') (Name ws1)" by (rule prefixI)
    then show ?thesis by (simp add: HasPrefix_iff_prefix)
  next
    assume a: "Name ws1 @ us = Name ws2 \<and> t1 = us @ t2"
    with \<open>us \<noteq> []\<close> t1(2) have "hd us = CHR ''.''" by (cases us) auto
    with \<open>us \<noteq> []\<close> obtain r where "us = CHR ''.'' # r" by (cases us) auto
    with a have "Name ws2 = (Name ws1 @ ''.'') @ r" by simp
    then have "prefix (Name ws1 @ ''.'') (Name ws2)" by (rule prefixI)
    then show ?thesis by (simp add: HasPrefix_iff_prefix)
  qed
qed

lemma distinct_run_hostnames_iff:
  assumes "distinct (map (\<lambda>(ws, rs). Name ws) fetched)"
    and "\<forall>(ws1, rs1) \<in> set fetched. \<forall>(ws2, rs2) \<in> set fetched.
           \<not> HasPrefix (Name ws1) (Name ws2 @ ''.'')"
  shows "distinct (run_hostnames fetched) \<longleftrightarrow>
     (\<forall>(ws, rs) \<in> set fetched.
        length (filter single_agent_start rs) \<le> 1 \<and> distinct (multi_agent_names rs))"
  using assms
proof (induction fetched)
  case Nil
  show ?case by (simp add: run_hostnames_def)
next
  case (Cons a fetched)
  obtain ws rs where a: "a = (ws, rs)" by (cases a)
  have disj: "set (workspace_hostnames ws rs) \<inter> set (run_hostnames fetched) = {}"
  proof (rule ccontr)
    assume "set (workspace_hostnames ws rs) \<inter> set (run_hostnames fetched) \<noteq> {}"
    then obtain h where h1: "h \<in> set (workspace_hostnames ws rs)"
      and h2: "h \<in> set (run_hostnames fetched)" by auto
    from h2 obtain ws' rs' where m: "(ws', rs') \<in> set fetched"
      and h3: "h \<in> set (workspace_hostnames ws' rs')"
      by (auto simp: run_hostnames_def)
    from m Cons.prems(1) a have ne: "Name ws \<noteq> Name ws'" by force
    from hostnames_of_two_workspaces [OF h1 h3 ne]
    have "HasPrefix (Name ws) (Name ws' @ ''.'') \<or> HasPrefix (Name ws') (Name ws @ ''.'')" .
    moreover from Cons.prems(2) m a have "\<not> HasPrefix (Name ws) (Name ws' @ ''.'')" by fastforce
    moreover from Cons.prems(2) m a have "\<not> HasPrefix (Name ws') (Name ws @ ''.'')" by fastforce
    ultimately show False by blast
  qed
  have tail: "distinct (run_hostnames fetched) \<longleftrightarrow>
     (\<forall>(ws, rs) \<in> set fetched.
        length (filter single_agent_start rs) \<le> 1 \<and> distinct (multi_agent_names rs))"
  proof (rule Cons.IH)
    show "distinct (map (\<lambda>(ws, rs). Name ws) fetched)" using Cons.prems(1) by simp
    show "\<forall>(ws1, rs1) \<in> set fetched. \<forall>(ws2, rs2) \<in> set fetched.
           \<not> HasPrefix (Name ws1) (Name ws2 @ ''.'')"
      using Cons.prems(2) by fastforce
  qed
  have "run_hostnames (a # fetched) = workspace_hostnames ws rs @ run_hostnames fetched"
    by (simp add: run_hostnames_def a)
  with disj tail distinct_workspace_hostnames_iff [of ws rs] a show ?case by auto
qed

lemma distinct_map_host_alias: "distinct (map host_alias hs) = distinct hs"
  by (simp add: distinct_map host_alias_def inj_on_def)

text \<open>
  Whatever the schedule, the stanzas in the buffer are, up to their order, the
  stanzas of the host names of the run.
\<close>

lemma emitted_stanzas_up_to_order:
  "mset (interleave sched
      (map (\<lambda>(ws, resources). workspace_stanzas q opts skip binaryFile root ws resources) fetched))
     = mset (map (stanza q opts skip binaryFile root) (run_hostnames fetched))"
  by (simp add: mset_interleave run_stanzas_eq [symmetric])

text \<open>
  Claim C4, as amended. Take a run whose workspaces have pairwise distinct names,
  none of which begins with the name of a workspace of the run followed by a dot.
  The aliases of all its stanzas are pairwise distinct exactly when every workspace
  has at most one start resource with a single agent and the agent names over its
  start resources with several agents are pairwise distinct.
\<close>

theorem aliases_distinct_iff:
  "distinct (map (\<lambda>(ws, rs). Name ws) fetched)
   \<and> (\<forall>(ws1, rs1) \<in> set fetched. \<forall>(ws2, rs2) \<in> set fetched.
          \<not> HasPrefix (Name ws1) (Name ws2 @ ''.''))
   \<longrightarrow> distinct (map host_alias (run_hostnames fetched))
       = (\<forall>(ws, rs) \<in> set fetched.
            length (filter single_agent_start rs) \<le> 1 \<and> distinct (multi_agent_names rs))"
  using distinct_run_hostnames_iff [of fetched] by (simp add: distinct_map_host_alias)

theorem aliases_distinct_iff_witness:
  "distinct [''dev'', ''web'']
   \<and> \<not> HasPrefix ''dev'' ''dev.'' \<and> \<not> HasPrefix ''dev'' ''web.''
   \<and> \<not> HasPrefix ''web'' ''dev.'' \<and> \<not> HasPrefix ''web'' ''web.''
   \<and> map host_alias (run_hostnames
        [(\<lparr>Name = ''dev'', LatestBuild_TemplateVersionID = ''t1''\<rparr>,
          [\<lparr>Transition = WorkspaceTransitionStart,
              Agents = [\<lparr>agent_Name = ''a''\<rparr>, \<lparr>agent_Name = ''b''\<rparr>]\<rparr>,
           \<lparr>Transition = WorkspaceTransitionStart,
              Agents = [\<lparr>agent_Name = ''c''\<rparr>, \<lparr>agent_Name = ''d''\<rparr>]\<rparr>,
           \<lparr>Transition = WorkspaceTransitionStart, Agents = [\<lparr>agent_Name = ''e''\<rparr>]\<rparr>,
           \<lparr>Transition = WorkspaceTransitionStop, Agents = [\<lparr>agent_Name = ''f''\<rparr>]\<rparr>]),
         (\<lparr>Name = ''web'', LatestBuild_TemplateVersionID = ''t2''\<rparr>,
          [\<lparr>Transition = WorkspaceTransitionStart, Agents = [\<lparr>agent_Name = ''main''\<rparr>]\<rparr>])])
       = [''coder.dev.a'', ''coder.dev.b'', ''coder.dev.c'', ''coder.dev.d'', ''coder.dev'',
          ''coder.web'']
   \<and> distinct (map host_alias (run_hostnames
        [(\<lparr>Name = ''dev'', LatestBuild_TemplateVersionID = ''t1''\<rparr>,
          [\<lparr>Transition = WorkspaceTransitionStart,
              Agents = [\<lparr>agent_Name = ''a''\<rparr>, \<lparr>agent_Name = ''b''\<rparr>]\<rparr>,
           \<lparr>Transition = WorkspaceTransitionStart,
              Agents = [\<lparr>agent_Name = ''c''\<rparr>, \<lparr>agent_Name = ''d''\<rparr>]\<rparr>,
           \<lparr>Transition = WorkspaceTransitionStart, Agents = [\<lparr>agent_Name = ''e''\<rparr>]\<rparr>,
           \<lparr>Transition = WorkspaceTransitionStop, Agents = [\<lparr>agent_Name = ''f''\<rparr>]\<rparr>]),
         (\<lparr>Name = ''web'', LatestBuild_TemplateVersionID = ''t2''\<rparr>,
          [\<lparr>Transition = WorkspaceTransitionStart, Agents = [\<lparr>agent_Name = ''main''\<rparr>]\<rparr>])]))"
proof -
  let ?fetched = "[(\<lparr>Name = ''dev'', LatestBuild_TemplateVersionID = ''t1''\<rparr>,
          [\<lparr>Transition = WorkspaceTransitionStart,
              Agents = [\<lparr>agent_Name = ''a''\<rparr>, \<lparr>agent_Name = ''b''\<rparr>]\<rparr>,
           \<lparr>Transition = WorkspaceTransitionStart,
              Agents = [\<lparr>agent_Name = ''c''\<rparr>, \<lparr>agent_Name = ''d''\<rparr>]\<rparr>,
           \<lparr>Transition = WorkspaceTransitionStart, Agents = [\<lparr>agent_Name = ''e''\<rparr>]\<rparr>,
           \<lparr>Transition = WorkspaceTransitionStop, Agents = [\<lparr>agent_Name = ''f''\<rparr>]\<rparr>]),
         (\<lparr>Name = ''web'', LatestBuild_TemplateVersionID = ''t2''\<rparr>,
          [\<lparr>Transition = WorkspaceTransitionStart, Agents = [\<lparr>agent_Name = ''main''\<rparr>]\<rparr>])]"
  have names: "distinct [''dev'', ''web'']
      \<and> \<not> HasPrefix ''dev'' ''dev.'' \<and> \<not> HasPrefix ''dev'' ''web.''
      \<and> \<not> HasPrefix ''web'' ''dev.'' \<and> \<not> HasPrefix ''web'' ''web.''"
    by simp
  then have h: "distinct (map (\<lambda>(ws, rs). Name ws) ?fetched)
     \<and> (\<forall>(ws1, rs1) \<in> set ?fetched. \<forall>(ws2, rs2) \<in> set ?fetched.
          \<not> HasPrefix (Name ws1) (Name ws2 @ ''.''))"
    by simp
  have c: "\<forall>(ws, rs) \<in> set ?fetched.
      length (filter single_agent_start rs) \<le> 1 \<and> distinct (multi_agent_names rs)"
    by (simp add: single_agent_start_def multi_agent_start_def multi_agent_names_def)
  from aliases_distinct_iff [of ?fetched] h c
  have d: "distinct (map host_alias (run_hostnames ?fetched))" by blast
  have v: "map host_alias (run_hostnames ?fetched)
      = [''coder.dev.a'', ''coder.dev.b'', ''coder.dev.c'', ''coder.dev.d'', ''coder.dev'',
         ''coder.web'']"
    by (simp add: run_hostnames_def workspace_hostnames_def resource_hostnames_def
        hostname_of_def host_alias_def)
  from names d v show ?thesis by simp
qed

text \<open>
  Claim C4 as stated fails for a workspace with two start resources of one agent
  each: the agents \<open>a\<close> and \<open>b\<close> of workspace \<open>dev\<close> both get the alias
  \<open>coder.dev\<close>.
\<close>

theorem same_alias_for_two_single_agent_resources_counterexample:
  "map host_alias (run_hostnames
      [(\<lparr>Name = ''dev'', LatestBuild_TemplateVersionID = ''t1''\<rparr>,
        [\<lparr>Transition = WorkspaceTransitionStart, Agents = [\<lparr>agent_Name = ''a''\<rparr>]\<rparr>,
         \<lparr>Transition = WorkspaceTransitionStart, Agents = [\<lparr>agent_Name = ''b''\<rparr>]\<rparr>])])
     = [''coder.dev'', ''coder.dev'']
   \<and> ''a'' \<noteq> ''b''
   \<and> \<not> distinct (map host_alias (run_hostnames
      [(\<lparr>Name = ''dev'', LatestBuild_TemplateVersionID = ''t1''\<rparr>,
        [\<lparr>Transition = WorkspaceTransitionStart, Agents = [\<lparr>agent_Name = ''a''\<rparr>]\<rparr>,
         \<lparr>Transition = WorkspaceTransitionStart, Agents = [\<lparr>agent_Name = ''b''\<rparr>]\<rparr>])]))"
  by (simp add: run_hostnames_def workspace_hostnames_def resource_hostnames_def
      hostname_of_def host_alias_def)

section \<open>The command\<close>

text \<open>
  Claim C5. When the list of workspaces is empty the command fails and leaves the
  file system as it was: the config file keeps its content and no directory is
  created. In every run that reaches the resolver (the client and the organization
  are obtained and the excision returns) the error is the message that there are no
  workspaces.
\<close>

theorem empty_workspace_list_fails_before_any_write:
  "(WorkspacesByOwner w = Inr [] \<longrightarrow>
      fst (configSSH w fs) \<noteq> None \<and> snd (configSSH w fs) = fs)
   \<and> (createClient_err w = None \<and> currentOrganization_err w = None
      \<and> \<not> isl (exciseBlock (ReadFile fs (sshConfigFile w)))
      \<and> WorkspacesByOwner w = Inr [] \<longrightarrow>
        configSSH w fs = (Some (Error ''You don't have any workspaces!''), fs))"
  by (auto simp: configSSH_def split: option.splits sum.splits)

theorem empty_workspace_list_fails_before_any_write_witness:
  "createClient_err (dev_world\<lparr>WorkspacesByOwner := Inr []\<rparr>) = None
   \<and> currentOrganization_err (dev_world\<lparr>WorkspacesByOwner := Inr []\<rparr>) = None
   \<and> \<not> isl (exciseBlock (ReadFile (fs_with_config ''Host a'')
          (sshConfigFile (dev_world\<lparr>WorkspacesByOwner := Inr []\<rparr>))))
   \<and> WorkspacesByOwner (dev_world\<lparr>WorkspacesByOwner := Inr []\<rparr>) = Inr []
   \<and> configSSH (dev_world\<lparr>WorkspacesByOwner := Inr []\<rparr>) (fs_with_config ''Host a'')
       = (Some (Error ''You don't have any workspaces!''), fs_with_config ''Host a'')"
proof -
  have h: "createClient_err (dev_world\<lparr>WorkspacesByOwner := Inr []\<rparr>) = None
      \<and> currentOrganization_err (dev_world\<lparr>WorkspacesByOwner := Inr []\<rparr>) = None
      \<and> \<not> isl (exciseBlock (ReadFile (fs_with_config ''Host a'')
            (sshConfigFile (dev_world\<lparr>WorkspacesByOwner := Inr []\<rparr>))))
      \<and> WorkspacesByOwner (dev_world\<lparr>WorkspacesByOwner := Inr []\<rparr>) = Inr []"
    by (simp add: dev_world_def fs_with_config_def ReadFile_def exciseBlock_def
        sshStartToken_def sshEndToken_def)
  from empty_workspace_list_fails_before_any_write
    [of "dev_world\<lparr>WorkspacesByOwner := Inr []\<rparr>" "fs_with_config ''Host a''"] h
  show ?thesis by blast
qed

lemma dev_errGroup:
  "errGroup dev_world [\<lparr>Name = ''dev'', LatestBuild_TemplateVersionID = ''tv''\<rparr>]
     ''/usr/local/bin/coder'' ''/home/u/.coder'' = Inr dev_stanza"
  by (simp add: errGroup_def dev_world_def workspace_stanzas_def workspace_hostnames_def
      resource_hostnames_def hostname_of_def stanza_def configOptions_def ProxyCommand_line_def
      Quote_def quote_byte_def dev_stanza_def)

lemma dev_stanza_no_end: "Index dev_stanza sshEndToken = - 1"
  by (simp add: dev_stanza_def sshEndToken_def nl_def tab_def)

lemma header_no_end: "Index sshStartMessage sshEndToken = - 1"
  by (simp add: sshStartMessage_def sshEndToken_def nl_def)

lemma start_no_end: "Index sshStartToken sshEndToken = - 1"
  by (simp add: sshStartToken_def sshEndToken_def)

lemma Index_absent_separator:
  assumes "c \<notin> set sub"
  shows "Index (a @ c # b) sub = - 1 \<longleftrightarrow> Index a sub = - 1 \<and> Index b sub = - 1"
  using sublist_separator [OF assms] by (simp add: Index_minus_one_iff)

lemma Index_Nil_absent: "sub \<noteq> [] \<Longrightarrow> Index [] sub = - 1"
  by simp

lemma regenerated_block_excised:
  assumes p1: "Index p sshStartToken = - 1" and p2: "Index p sshEndToken = - 1"
    and st: "Index stanzas sshEndToken = - 1"
  shows "exciseBlock (p @ block_header @ stanzas @ block_footer) = Inr p"
proof -
  let ?mid = "nl # sshStartMessage @ nl # nl # stanzas @ [nl]"
  have shape: "p @ block_header @ stanzas @ block_footer
      = p @ nl # sshStartToken @ ?mid @ sshEndToken @ []"
    by (simp add: block_header_def block_footer_def)
  have h1: "Index (p @ [nl]) sshStartToken = - 1"
    using p1 start_token_shape by (simp add: Index_absent_separator)
  have e: "Index [] sshEndToken = - 1" using end_token_shape by simp
  have "Index (nl # stanzas @ [nl]) sshEndToken = - 1"
    using Index_absent_separator [of nl sshEndToken "[]" "stanzas @ [nl]"]
      Index_absent_separator [of nl sshEndToken stanzas "[]"] st e end_token_shape
    by simp
  then have "Index (sshStartMessage @ nl # nl # stanzas @ [nl]) sshEndToken = - 1"
    using header_no_end end_token_shape by (simp add: Index_absent_separator)
  then have "Index (sshStartToken @ nl # sshStartMessage @ nl # nl # stanzas @ [nl]) sshEndToken = - 1"
    using start_no_end end_token_shape by (simp add: Index_absent_separator)
  then have h2: "Index (p @ nl # sshStartToken @ ?mid) sshEndToken = - 1"
    using p2 end_token_shape by (simp add: Index_absent_separator)
  from excise_single_block [OF h1 h2, of "[]"] shape show ?thesis by simp
qed

lemma dev_fields:
  "createClient_err dev_world = None" "currentOrganization_err dev_world = None"
  "sshConfigFile dev_world = ''/home/u/.ssh/config''"
  "sshConfigDir dev_world = ''/home/u/.ssh''"
  "WorkspacesByOwner dev_world = Inr [\<lparr>Name = ''dev'', LatestBuild_TemplateVersionID = ''tv''\<rparr>]"
  "currentBinPath dev_world = Inr ''/usr/local/bin/coder''"
  "createConfig dev_world = ''/home/u/.coder''"
  "MkdirAll_err dev_world = None" "WriteFile_err dev_world = None"
  by (simp_all add: dev_world_def)

lemma dev_run:
  assumes "exciseBlock content = Inr p"
  shows "configSSH dev_world (fs_with_config content)
    = (None, \<lparr>files = Map.empty(''/home/u/.ssh/config'' \<mapsto> p @ block_header @ dev_stanza @ block_footer),
         dirs = {''/home/u/.ssh''}\<rparr>)"
  using assms by (simp add: configSSH_def dev_fields dev_errGroup ReadFile_def fs_with_config_def)

lemma dev_rerun:
  assumes "exciseBlock content = Inr p"
  shows "configSSH dev_world
      \<lparr>files = Map.empty(''/home/u/.ssh/config'' \<mapsto> content), dirs = {''/home/u/.ssh''}\<rparr>
    = (None, \<lparr>files = Map.empty(''/home/u/.ssh/config'' \<mapsto> p @ block_header @ dev_stanza @ block_footer),
         dirs = {''/home/u/.ssh''}\<rparr>)"
  using assms by (simp add: configSSH_def dev_fields dev_errGroup ReadFile_def)

lemma lone_start: "exciseBlock (''x'' @ [nl] @ sshStartToken @ [nl] @ ''Host old'')
   = Inr (''x'' @ [nl] @ sshStartToken @ [nl] @ ''Host old'')"
  by (simp add: exciseBlock_def sshStartToken_def sshEndToken_def nl_def)

lemma second_excise: "exciseBlock ((''x'' @ [nl] @ sshStartToken @ [nl] @ ''Host old'') @ block_header @ dev_stanza @ block_footer)
   = Inr ''x''"
proof -
  have "exciseBlock (''x'' @ nl # sshStartToken @ (nl # ''Host old'' @ nl # sshStartToken @ nl # sshStartMessage @ nl # nl # dev_stanza @ [nl]) @ sshEndToken @ []) = Inr (''x'' @ [])"
    apply (rule excise_single_block)
     apply (simp add: sshStartToken_def nl_def)
    apply (simp add: sshStartToken_def sshEndToken_def sshStartMessage_def dev_stanza_def nl_def tab_def)
    done
  then show ?thesis by (simp add: block_header_def block_footer_def)
qed

text \<open>
  Claim C2, as amended. Take a run that succeeds, in which the text left by the
  excision holds neither marker and the regenerated stanzas hold no end marker.
  Then the file it writes is that text followed by the new block, and a second run
  in the same world (same workspaces, resources, agents, options, binary path,
  config root, and the same order of appends) writes the same bytes again and
  leaves the file system as the first run left it.
\<close>

theorem second_run_writes_identical_content:
  "createClient_err w = None \<and> currentOrganization_err w = None
   \<and> exciseBlock (ReadFile fs (sshConfigFile w)) = Inr p
   \<and> Index p sshStartToken = - 1 \<and> Index p sshEndToken = - 1
   \<and> WorkspacesByOwner w = Inr workspaces \<and> workspaces \<noteq> []
   \<and> currentBinPath w = Inr binaryFile
   \<and> errGroup w workspaces binaryFile (createConfig w) = Inr stanzas
   \<and> Index stanzas sshEndToken = - 1
   \<and> MkdirAll_err w = None \<and> WriteFile_err w = None
   \<longrightarrow> fst (configSSH w fs) = None
     \<and> files (snd (configSSH w fs)) (sshConfigFile w)
         = Some (p @ block_header @ stanzas @ block_footer)
     \<and> configSSH w (snd (configSSH w fs)) = (None, snd (configSSH w fs))"
proof (intro impI, elim conjE)
  assume a: "createClient_err w = None" "currentOrganization_err w = None"
    "exciseBlock (ReadFile fs (sshConfigFile w)) = Inr p"
    "WorkspacesByOwner w = Inr workspaces" "workspaces \<noteq> []"
    "currentBinPath w = Inr binaryFile"
    "errGroup w workspaces binaryFile (createConfig w) = Inr stanzas"
    "MkdirAll_err w = None" "WriteFile_err w = None"
  assume m: "Index p sshStartToken = - 1" "Index p sshEndToken = - 1"
    "Index stanzas sshEndToken = - 1"
  define fs1 where "fs1 = fs\<lparr>dirs := insert (sshConfigDir w) (dirs fs),
      files := (files fs)(sshConfigFile w \<mapsto> p @ block_header @ stanzas @ block_footer)\<rparr>"
  have run1: "configSSH w fs = (None, fs1)"
    using a by (simp add: configSSH_def fs1_def)
  have read: "ReadFile fs1 (sshConfigFile w) = p @ block_header @ stanzas @ block_footer"
    by (simp add: ReadFile_def fs1_def)
  have ex: "exciseBlock (ReadFile fs1 (sshConfigFile w)) = Inr p"
    unfolding read by (rule regenerated_block_excised [OF m])
  have "configSSH w fs1 = (None, fs1\<lparr>dirs := insert (sshConfigDir w) (dirs fs1),
      files := (files fs1)(sshConfigFile w \<mapsto> p @ block_header @ stanzas @ block_footer)\<rparr>)"
    using a ex by (simp add: configSSH_def)
  also have "fs1\<lparr>dirs := insert (sshConfigDir w) (dirs fs1),
      files := (files fs1)(sshConfigFile w \<mapsto> p @ block_header @ stanzas @ block_footer)\<rparr> = fs1"
    by (simp add: fs1_def)
  finally have run2: "configSSH w fs1 = (None, fs1)" .
  show "fst (configSSH w fs) = None
     \<and> files (snd (configSSH w fs)) (sshConfigFile w)
         = Some (p @ block_header @ stanzas @ block_footer)
     \<and> configSSH w (snd (configSSH w fs)) = (None, snd (configSSH w fs))"
    using run1 run2 by (simp add: fs1_def)
qed

theorem second_run_writes_identical_content_witness:
  "createClient_err dev_world = None \<and> currentOrganization_err dev_world = None
   \<and> exciseBlock (ReadFile (fs_with_config ''Host a'') (sshConfigFile dev_world)) = Inr ''Host a''
   \<and> Index ''Host a'' sshStartToken = - 1 \<and> Index ''Host a'' sshEndToken = - 1
   \<and> WorkspacesByOwner dev_world = Inr [\<lparr>Name = ''dev'', LatestBuild_TemplateVersionID = ''tv''\<rparr>]
   \<and> [\<lparr>Name = ''dev'', LatestBuild_TemplateVersionID = ''tv''\<rparr>] \<noteq> []
   \<and> currentBinPath dev_world = Inr ''/usr/local/bin/coder''
   \<and> errGroup dev_world [\<lparr>Name = ''dev'', LatestBuild_TemplateVersionID = ''tv''\<rparr>]
        ''/usr/local/bin/coder'' (createConfig dev_world) = Inr dev_stanza
   \<and> Index dev_stanza sshEndToken = - 1
   \<and> MkdirAll_err dev_world = None \<and> WriteFile_err dev_world = None
   \<and> fst (configSSH dev_world (fs_with_config ''Host a'')) = None
   \<and> files (snd (configSSH dev_world (fs_with_config ''Host a''))) (sshConfigFile dev_world)
       = Some (''Host a'' @ block_header @ dev_stanza @ block_footer)
   \<and> configSSH dev_world (snd (configSSH dev_world (fs_with_config ''Host a'')))
       = (None, snd (configSSH dev_world (fs_with_config ''Host a'')))"
proof -
  have h: "createClient_err dev_world = None \<and> currentOrganization_err dev_world = None
      \<and> exciseBlock (ReadFile (fs_with_config ''Host a'') (sshConfigFile dev_world)) = Inr ''Host a''
      \<and> Index ''Host a'' sshStartToken = - 1 \<and> Index ''Host a'' sshEndToken = - 1
      \<and> WorkspacesByOwner dev_world = Inr [\<lparr>Name = ''dev'', LatestBuild_TemplateVersionID = ''tv''\<rparr>]
      \<and> [\<lparr>Name = ''dev'', LatestBuild_TemplateVersionID = ''tv''\<rparr>] \<noteq> []
      \<and> currentBinPath dev_world = Inr ''/usr/local/bin/coder''
      \<and> errGroup dev_world [\<lparr>Name = ''dev'', LatestBuild_TemplateVersionID = ''tv''\<rparr>]
           ''/usr/local/bin/coder'' (createConfig dev_world) = Inr dev_stanza
      \<and> Index dev_stanza sshEndToken = - 1
      \<and> MkdirAll_err dev_world = None \<and> WriteFile_err dev_world = None"
  proof -
    have a: "Index ''Host a'' sshStartToken = - 1 \<and> Index ''Host a'' sshEndToken = - 1"
      by (simp add: sshStartToken_def sshEndToken_def)
    then have "exciseBlock ''Host a'' = Inr ''Host a''"
      by (simp add: exciseBlock_absent)
    then have b: "exciseBlock (ReadFile (fs_with_config ''Host a'') (sshConfigFile dev_world))
        = Inr ''Host a''"
      by (simp add: dev_fields fs_with_config_def ReadFile_def)
    from a b show ?thesis
      by (simp add: dev_fields dev_errGroup dev_stanza_no_end)
  qed
  from second_run_writes_identical_content
    [where w = dev_world and fs = "fs_with_config ''Host a''" and p = "''Host a''"
       and workspaces = "[\<lparr>Name = ''dev'', LatestBuild_TemplateVersionID = ''tv''\<rparr>]"
       and binaryFile = "''/usr/local/bin/coder''" and stanzas = dev_stanza] h
  show ?thesis by blast
qed

text \<open>
  Claim C2 as stated fails on a config file that holds a start marker without an end
  marker (a cut-off earlier block): the first run keeps the whole file and appends
  the block, the second run cuts from the stray start marker on, so the two runs
  write different contents.
\<close>

theorem second_run_differs_after_stray_start_marker_counterexample:
  "fst (configSSH dev_world (fs_with_config (''x'' @ [nl] @ sshStartToken @ [nl] @ ''Host old''))) = None
   \<and> files (snd (configSSH dev_world (fs_with_config (''x'' @ [nl] @ sshStartToken @ [nl] @ ''Host old''))))
        ''/home/u/.ssh/config''
      = Some (''x'' @ [nl] @ sshStartToken @ [nl] @ ''Host old'' @ block_header @ dev_stanza @ block_footer)
   \<and> fst (configSSH dev_world
        (snd (configSSH dev_world (fs_with_config (''x'' @ [nl] @ sshStartToken @ [nl] @ ''Host old''))))) = None
   \<and> files (snd (configSSH dev_world
        (snd (configSSH dev_world (fs_with_config (''x'' @ [nl] @ sshStartToken @ [nl] @ ''Host old''))))))
        ''/home/u/.ssh/config''
      = Some (''x'' @ block_header @ dev_stanza @ block_footer)
   \<and> ''x'' @ [nl] @ sshStartToken @ [nl] @ ''Host old'' @ block_header @ dev_stanza @ block_footer
      \<noteq> ''x'' @ block_header @ dev_stanza @ block_footer"
proof -
  have "length (''x'' @ [nl] @ sshStartToken @ [nl] @ ''Host old'' @ block_header @ dev_stanza @ block_footer)
      \<noteq> length (''x'' @ block_header @ dev_stanza @ block_footer)"
    by (simp add: sshStartToken_def)
  then have "''x'' @ [nl] @ sshStartToken @ [nl] @ ''Host old'' @ block_header @ dev_stanza @ block_footer
      \<noteq> ''x'' @ block_header @ dev_stanza @ block_footer"
    by metis
  with dev_run [OF lone_start] dev_rerun [OF second_excise] show ?thesis
    by simp
qed

end
